theory Spec2Isabelle
  imports Complex_Main
begin

section \<open>Configuration constants\<close>

text \<open>
  \<^verbatim>\<open>chaos.py\<close>, lines 7-9 and 84-85. Python's \<^verbatim>\<open>//\<close> on non-negative integers is
  \<open>div\<close>.
\<close>

definition WIDTH :: int where
  "WIDTH = 1000"

definition HEIGHT :: int where
  "HEIGHT = 1000"

definition FPS :: int where
  "FPS = 60"

definition ENTROPHY :: nat where
  "ENTROPHY = 10"

definition R_MIN :: int where
  "R_MIN = 2"

definition R_MAX :: int where
  "R_MAX = min WIDTH HEIGHT div 4"

definition V_MAX :: int where
  "V_MAX = FPS div 30"

section \<open>The ball\<close>

text \<open>
  The slots of class \<^verbatim>\<open>Ball\<close> (line 89). The fields carry the prefix \<open>ball_\<close>
  so that \<open>x\<close>, \<open>y\<close>, \<open>v\<close> and \<open>id\<close> stay usable as variables. Floats are
  modelled as exact reals; a colour is the four channels handed to the colour constructor.
\<close>

record ball =
  ball_id :: nat
  ball_radius :: int
  ball_color :: "int \<times> int \<times> int \<times> int"
  ball_v :: real
  ball_angle :: real
  ball_x :: real
  ball_y :: real

text \<open>The properties \<^verbatim>\<open>m\<close>, \<^verbatim>\<open>vx\<close>, \<^verbatim>\<open>vy\<close> and \<^verbatim>\<open>is_outside\<close> (lines 118-134).\<close>

definition ball_m :: "ball \<Rightarrow> int" where
  "ball_m b = ball_radius b ^ 3"

definition ball_vx :: "ball \<Rightarrow> real" where
  "ball_vx b = ball_v b * cos (ball_angle b)"

definition ball_vy :: "ball \<Rightarrow> real" where
  "ball_vy b = ball_v b * sin (ball_angle b)"

definition is_outside :: "ball \<Rightarrow> bool" where
  "is_outside b =
     (ball_x b < 0 \<or> ball_x b > real_of_int WIDTH \<or> ball_y b < 0 \<or> ball_y b > real_of_int HEIGHT)"

text \<open>
  \<^verbatim>\<open>distance\<close> (lines 15-17) and \<^verbatim>\<open>is_collide\<close> (lines 136-138). On a sum of two
  squares \<^verbatim>\<open>** 0.5\<close> is the square root.
\<close>

definition distance :: "real \<times> real \<Rightarrow> real \<times> real \<Rightarrow> real" where
  "distance p1 p2 = sqrt ((fst p1 - fst p2) ^ 2 + (snd p1 - snd p2) ^ 2)"

definition is_collide :: "ball \<Rightarrow> ball \<Rightarrow> bool" where
  "is_collide self other =
     (distance (ball_x self, ball_y self) (ball_x other, ball_y other)
        \<le> real_of_int (ball_radius self + ball_radius other))"

text \<open>
  \<^verbatim>\<open>move\<close> (lines 140-160). The horizontal test runs first and may replace the
  heading; the vertical test reads the heading it finds. In this definition \<open>pi\<close> is the
  real number, as all arithmetic is exact; \<open>move_with\<close> below is the same function with
  the constant as a parameter.
\<close>

definition move :: "ball \<Rightarrow> ball" where
  "move self =
     (let x = ball_x self + ball_v self * cos (ball_angle self);
          y = ball_y self + ball_v self * sin (ball_angle self);
          (angle1, x1) =
            (if x - real_of_int (ball_radius self) < 0 \<and> cos (ball_angle self) < 0
               then (pi - ball_angle self, ball_x self)
             else if x + real_of_int (ball_radius self) > real_of_int WIDTH \<and> cos (ball_angle self) > 0
               then (pi - ball_angle self, ball_x self)
             else (ball_angle self, x));
          (angle2, y1) =
            (if y - real_of_int (ball_radius self) < 0 \<and> sin angle1 < 0
               then (- angle1, ball_y self)
             else if y + real_of_int (ball_radius self) > real_of_int HEIGHT \<and> sin angle1 > 0
               then (- angle1, ball_y self)
             else (angle1, y))
      in self\<lparr>ball_angle := angle2, ball_x := x1, ball_y := y1\<rparr>)"


definition move_with :: "real \<Rightarrow> ball \<Rightarrow> ball" where
  "move_with p self =
     (let x = ball_x self + ball_v self * cos (ball_angle self);
          y = ball_y self + ball_v self * sin (ball_angle self);
          (angle1, x1) =
            (if x - real_of_int (ball_radius self) < 0 \<and> cos (ball_angle self) < 0
               then (p - ball_angle self, ball_x self)
             else if x + real_of_int (ball_radius self) > real_of_int WIDTH \<and> cos (ball_angle self) > 0
               then (p - ball_angle self, ball_x self)
             else (ball_angle self, x));
          (angle2, y1) =
            (if y - real_of_int (ball_radius self) < 0 \<and> sin angle1 < 0
               then (- angle1, ball_y self)
             else if y + real_of_int (ball_radius self) > real_of_int HEIGHT \<and> sin angle1 > 0
               then (- angle1, ball_y self)
             else (angle1, y))
      in self\<lparr>ball_angle := angle2, ball_x := x1, ball_y := y1\<rparr>)"

section \<open>Errors and library functions\<close>

text \<open>
  The exceptions the program can raise, and a result type with \<open>Inl\<close> for a raised
  exception. \<open>bind_err\<close> runs the rest of a block only when no exception was raised.
\<close>

datatype error = AssertionError | ZeroDivisionError | ValueError

definition bind_err :: "error + 'a \<Rightarrow> ('a \<Rightarrow> error + 'b) \<Rightarrow> error + 'b" where
  "bind_err r f = (case r of Inl e \<Rightarrow> Inl e | Inr a \<Rightarrow> f a)"

text \<open>Float division raises on a zero divisor.\<close>

definition py_div :: "real \<Rightarrow> real \<Rightarrow> error + real" where
  "py_div a b = (if b = 0 then Inl ZeroDivisionError else Inr (a / b))"

text \<open>
  \<^verbatim>\<open>math.atan2(y, x)\<close>: the angle of the vector \<open>(x, y)\<close> in \<open>(-pi, pi]\<close>, and \<open>0\<close>
  at the origin.
\<close>

definition atan2 :: "real \<Rightarrow> real \<Rightarrow> real" where
  "atan2 y x =
     (if 0 < x then arctan (y / x)
      else if x < 0 then (if 0 \<le> y then arctan (y / x) + pi else arctan (y / x) - pi)
      else if 0 < y then pi / 2
      else if y < 0 then - (pi / 2)
      else 0)"

text \<open>
  The random source. \<^verbatim>\<open>randint(a, b)\<close> returns an integer of \<open>[a, b]\<close> and raises on an
  empty range; \<^verbatim>\<open>random()\<close> returns a float of \<open>[0, 1)\<close>. The generator's choice is an
  explicit argument, so every outcome is the image of some choice.
\<close>

definition randint :: "int \<Rightarrow> int \<Rightarrow> nat \<Rightarrow> error + int" where
  "randint a b k = (if b < a then Inl ValueError else Inr (a + int (k mod nat (b - a + 1))))"

definition py_random :: "real \<Rightarrow> real" where
  "py_random u = frac u"

text \<open>The choices one call of the constructor consumes, in the order it makes them.\<close>

record draws =
  draw_radius :: nat
  draw_color :: "nat \<times> nat \<times> nat \<times> nat"
  draw_v :: real
  draw_angle :: real
  draw_x :: nat
  draw_y :: nat

text \<open>
  The values a caller can pass for \<^verbatim>\<open>radius\<close> and \<^verbatim>\<open>angle\<close>. \<^verbatim>\<open>bool\<close> is a
  subclass of \<^verbatim>\<open>int\<close>; \<open>PyObj\<close> stands for an object of any other class, named by its
  class.
\<close>

datatype pyval = PyNone | PyBool bool | PyInt int | PyFloat real | PyObj string

fun isinstance_int :: "pyval \<Rightarrow> bool" where
  "isinstance_int (PyBool _) = True"
| "isinstance_int (PyInt _) = True"
| "isinstance_int _ = False"

fun isinstance_int_float :: "pyval \<Rightarrow> bool" where
  "isinstance_int_float (PyBool _) = True"
| "isinstance_int_float (PyInt _) = True"
| "isinstance_int_float (PyFloat _) = True"
| "isinstance_int_float _ = False"

fun int_of :: "pyval \<Rightarrow> int" where
  "int_of (PyBool b) = (if b then 1 else 0)"
| "int_of (PyInt i) = i"
| "int_of _ = 0"

fun real_of :: "pyval \<Rightarrow> real" where
  "real_of (PyBool b) = (if b then 1 else 0)"
| "real_of (PyInt i) = real_of_int i"
| "real_of (PyFloat r) = r"
| "real_of _ = 0"

section \<open>Construction\<close>

text \<open>
  \<^verbatim>\<open>Ball.__init__\<close> (lines 91-116). The class counter \<^verbatim>\<open>Ball.ID\<close> is passed in and
  returned; it is incremented before any assertion runs, so it advances on failure too.
  \<open>int_of\<close> and \<open>real_of\<close> are read only behind the matching \<^verbatim>\<open>isinstance\<close> test.
\<close>

definition Ball_init :: "pyval \<Rightarrow> pyval \<Rightarrow> draws \<Rightarrow> nat \<Rightarrow> (error + ball) \<times> nat" where
  "Ball_init radius angle rnd ID =
     (bind_err
        (if isinstance_int radius
           then (if R_MIN \<le> int_of radius \<and> int_of radius \<le> R_MAX
                   then Inr (int_of radius) else Inl AssertionError)
         else randint R_MIN R_MAX (draw_radius rnd))
        (\<lambda>self_radius.
      bind_err (randint 0 255 (fst (draw_color rnd))) (\<lambda>red.
      bind_err (randint 0 255 (fst (snd (draw_color rnd)))) (\<lambda>green.
      bind_err (randint 0 255 (fst (snd (snd (draw_color rnd))))) (\<lambda>blue.
      bind_err (randint 0 255 (snd (snd (snd (draw_color rnd))))) (\<lambda>alpha.
      bind_err
        (if isinstance_int_float angle
           then (if 0 \<le> real_of angle \<and> real_of angle \<le> 2 * pi
                   then Inr (real_of angle) else Inl AssertionError)
         else Inr (py_random (draw_angle rnd) * 2 * pi))
        (\<lambda>self_angle.
      bind_err (randint self_radius (WIDTH - self_radius) (draw_x rnd)) (\<lambda>self_x.
      bind_err (randint self_radius (HEIGHT - self_radius) (draw_y rnd)) (\<lambda>self_y.
        Inr \<lparr>ball_id = ID, ball_radius = self_radius, ball_color = (red, green, blue, alpha),
             ball_v = py_random (draw_v rnd) * real_of_int V_MAX, ball_angle = self_angle,
             ball_x = real_of_int self_x, ball_y = real_of_int self_y\<rparr>)))))))),
      ID + 1)"

section \<open>Placement\<close>

text \<open>
  The placement loops of \<^verbatim>\<open>main\<close> (lines 176-184). The \<^verbatim>\<open>while True\<close> loop has no
  bound: it runs on the list of choices still to come, and \<open>None\<close> says that the list
  ended before a candidate was accepted. The \<^verbatim>\<open>for\<close>/\<^verbatim>\<open>else\<close> scan over the accepted
  balls breaks at the first hit, which is \<open>list_ex\<close>.
\<close>

fun place_ball :: "ball list \<Rightarrow> draws list \<Rightarrow> nat
    \<Rightarrow> ((error + ball list) \<times> draws list \<times> nat) option" where
  "place_ball balls [] ID = None"
| "place_ball balls (rnd # rnds) ID =
     (case Ball_init PyNone PyNone rnd ID of
        (Inl e, ID') \<Rightarrow> Some (Inl e, rnds, ID')
      | (Inr new_ball, ID') \<Rightarrow>
          if list_ex (is_collide new_ball) balls then place_ball balls rnds ID'
          else Some (Inr (balls @ [new_ball]), rnds, ID'))"

fun placement :: "nat \<Rightarrow> ball list \<Rightarrow> draws list \<Rightarrow> nat
    \<Rightarrow> ((error + ball list) \<times> draws list \<times> nat) option" where
  "placement 0 balls rnds ID = Some (Inr balls, rnds, ID)"
| "placement (Suc n) balls rnds ID =
     (case place_ball balls rnds ID of
        None \<Rightarrow> None
      | Some (Inl e, rnds', ID') \<Rightarrow> Some (Inl e, rnds', ID')
      | Some (Inr balls', rnds', ID') \<Rightarrow> placement n balls' rnds' ID')"

section \<open>The collision engine\<close>

text \<open>
  The body of the inner loop of \<^verbatim>\<open>collisions\<close> (lines 24-80) on the pair
  \<^verbatim>\<open>balls[i], balls[j]\<close>; the result is the pair after the in-place updates, each
  update rebinding the ball's name. The \<^verbatim>\<open>continue\<close> of line 56 returns the pair with
  its positions corrected.
\<close>

definition collide_pair :: "ball \<Rightarrow> ball \<Rightarrow> error + ball \<times> ball" where
  "collide_pair ball1 ball2 =
     (let dx = ball_x ball2 - ball_x ball1;
          dy = ball_y ball2 - ball_y ball1;
          dist = sqrt (dx * dx + dy * dy);
          min_distance = real_of_int (ball_radius ball1 + ball_radius ball2)
      in if dist < min_distance then
           (let (dx, dy, dist) = (if dist = 0 then (1, 0, 1) else (dx, dy, dist)) in
            bind_err (py_div dx dist) (\<lambda>nx.
            bind_err (py_div dy dist) (\<lambda>ny.
              let overlap = min_distance - dist;
                  ball1 = ball1\<lparr>ball_x := ball_x ball1 - overlap * nx * 0.5\<rparr>;
                  ball1 = ball1\<lparr>ball_y := ball_y ball1 - overlap * ny * 0.5\<rparr>;
                  ball2 = ball2\<lparr>ball_x := ball_x ball2 + overlap * nx * 0.5\<rparr>;
                  ball2 = ball2\<lparr>ball_y := ball_y ball2 + overlap * ny * 0.5\<rparr>;
                  dvx = ball_vx ball2 - ball_vx ball1;
                  dvy = ball_vy ball2 - ball_vy ball1;
                  velocity_along_normal = dvx * nx + dvy * ny
              in if velocity_along_normal > 0 then Inr (ball1, ball2)
                 else
                   (let restitution = 1 in
                    bind_err
                      (py_div (2 * velocity_along_normal)
                         (real_of_int (ball_m ball1 + ball_m ball2)))
                      (\<lambda>impulse.
                        let vx1 = ball_vx ball1 + impulse * real_of_int (ball_m ball2) * nx * restitution;
                            vy1 = ball_vy ball1 + impulse * real_of_int (ball_m ball2) * ny * restitution;
                            vx2 = ball_vx ball2 - impulse * real_of_int (ball_m ball1) * nx * restitution;
                            vy2 = ball_vy ball2 - impulse * real_of_int (ball_m ball1) * ny * restitution
                        in Inr (ball1\<lparr>ball_v := sqrt (vx1 ^ 2 + vy1 ^ 2), ball_angle := atan2 vy1 vx1\<rparr>,
                                ball2\<lparr>ball_v := sqrt (vx2 ^ 2 + vy2 ^ 2), ball_angle := atan2 vy2 vx2\<rparr>))))))
         else Inr (ball1, ball2))"

text \<open>
  The two loops of \<^verbatim>\<open>collisions\<close> (lines 22-23) over the index lists
  \<^verbatim>\<open>range(i + 1, len(balls))\<close> and \<^verbatim>\<open>range(len(balls))\<close>. Every index read is below
  the length, which the updates keep.
\<close>

fun collisions_inner :: "nat \<Rightarrow> nat list \<Rightarrow> ball list \<Rightarrow> error + ball list" where
  "collisions_inner i [] balls = Inr balls"
| "collisions_inner i (j # js) balls =
     bind_err (collide_pair (balls ! i) (balls ! j))
       (\<lambda>(ball1, ball2). collisions_inner i js (balls[i := ball1, j := ball2]))"

fun collisions_outer :: "nat list \<Rightarrow> ball list \<Rightarrow> error + ball list" where
  "collisions_outer [] balls = Inr balls"
| "collisions_outer (i # is) balls =
     bind_err (collisions_inner i [Suc i..<length balls] balls) (collisions_outer is)"

definition collisions :: "ball list \<Rightarrow> error + ball list" where
  "collisions balls = collisions_outer [0..<length balls] balls"

section \<open>The simulation loop\<close>

text \<open>
  One pass of the main loop's physics (lines 195-200): every ball moves, the engine runs
  once, the balls outside the arena are dropped. \<open>ticks n\<close> is \<open>n\<close> passes.
\<close>

definition tick :: "ball list \<Rightarrow> error + ball list" where
  "tick balls =
     bind_err (collisions (map move balls))
       (\<lambda>balls'. Inr (filter (\<lambda>ball. \<not> is_outside ball) balls'))"

fun ticks :: "nat \<Rightarrow> ball list \<Rightarrow> error + ball list" where
  "ticks 0 balls = Inr balls"
| "ticks (Suc n) balls = bind_err (tick balls) (ticks n)"

section \<open>The quantities of one collision\<close>

text \<open>
  The values the inner loop computes for a pair, under the names the source gives them
  (lines 27-69), written with the total division of the reals. Lemma \<open>collide_pair_eq\<close>
  below proves that the loop body returns exactly what they describe.
\<close>

definition center_dist :: "ball \<Rightarrow> ball \<Rightarrow> real" where
  "center_dist ball1 ball2 =
     sqrt ((ball_x ball2 - ball_x ball1) * (ball_x ball2 - ball_x ball1)
         + (ball_y ball2 - ball_y ball1) * (ball_y ball2 - ball_y ball1))"

definition min_distance :: "ball \<Rightarrow> ball \<Rightarrow> real" where
  "min_distance ball1 ball2 = real_of_int (ball_radius ball1 + ball_radius ball2)"

definition contact_dist :: "ball \<Rightarrow> ball \<Rightarrow> real" where
  "contact_dist ball1 ball2 = (if center_dist ball1 ball2 = 0 then 1 else center_dist ball1 ball2)"

definition normal :: "ball \<Rightarrow> ball \<Rightarrow> real \<times> real" where
  "normal ball1 ball2 =
     (if center_dist ball1 ball2 = 0 then (1, 0)
      else ((ball_x ball2 - ball_x ball1) / center_dist ball1 ball2,
            (ball_y ball2 - ball_y ball1) / center_dist ball1 ball2))"

definition overlap :: "ball \<Rightarrow> ball \<Rightarrow> real" where
  "overlap ball1 ball2 = min_distance ball1 ball2 - contact_dist ball1 ball2"

definition velocity_along_normal :: "ball \<Rightarrow> ball \<Rightarrow> real" where
  "velocity_along_normal ball1 ball2 =
     (ball_vx ball2 - ball_vx ball1) * fst (normal ball1 ball2)
   + (ball_vy ball2 - ball_vy ball1) * snd (normal ball1 ball2)"

definition push_apart :: "ball \<Rightarrow> ball \<Rightarrow> ball \<times> ball" where
  "push_apart ball1 ball2 =
     (ball1\<lparr>ball_x := ball_x ball1 - overlap ball1 ball2 * fst (normal ball1 ball2) * 0.5,
            ball_y := ball_y ball1 - overlap ball1 ball2 * snd (normal ball1 ball2) * 0.5\<rparr>,
      ball2\<lparr>ball_x := ball_x ball2 + overlap ball1 ball2 * fst (normal ball1 ball2) * 0.5,
            ball_y := ball_y ball2 + overlap ball1 ball2 * snd (normal ball1 ball2) * 0.5\<rparr>)"

definition impulse :: "ball \<Rightarrow> ball \<Rightarrow> real" where
  "impulse ball1 ball2 =
     2 * velocity_along_normal ball1 ball2 / real_of_int (ball_m ball1 + ball_m ball2)"

definition new_velocity1 :: "ball \<Rightarrow> ball \<Rightarrow> real \<times> real" where
  "new_velocity1 ball1 ball2 =
     (ball_vx ball1 + impulse ball1 ball2 * real_of_int (ball_m ball2) * fst (normal ball1 ball2),
      ball_vy ball1 + impulse ball1 ball2 * real_of_int (ball_m ball2) * snd (normal ball1 ball2))"

definition new_velocity2 :: "ball \<Rightarrow> ball \<Rightarrow> real \<times> real" where
  "new_velocity2 ball1 ball2 =
     (ball_vx ball2 - impulse ball1 ball2 * real_of_int (ball_m ball1) * fst (normal ball1 ball2),
      ball_vy ball2 - impulse ball1 ball2 * real_of_int (ball_m ball1) * snd (normal ball1 ball2))"

definition set_velocity :: "real \<times> real \<Rightarrow> ball \<Rightarrow> ball" where
  "set_velocity w b = b\<lparr>ball_v := sqrt (fst w ^ 2 + snd w ^ 2), ball_angle := atan2 (snd w) (fst w)\<rparr>"

definition bounce :: "ball \<Rightarrow> ball \<Rightarrow> ball \<times> ball" where
  "bounce ball1 ball2 =
     (set_velocity (new_velocity1 ball1 ball2) (fst (push_apart ball1 ball2)),
      set_velocity (new_velocity2 ball1 ball2) (snd (push_apart ball1 ball2)))"

section \<open>The quantities of the specification\<close>

text \<open>
  Total momentum is the sum of pseudo-mass times velocity vector, total kinetic energy the
  sum of half pseudo-mass times speed squared.
\<close>

definition total_momentum :: "ball list \<Rightarrow> real \<times> real" where
  "total_momentum bs =
     (\<Sum>b\<leftarrow>bs. real_of_int (ball_m b) * ball_vx b, \<Sum>b\<leftarrow>bs. real_of_int (ball_m b) * ball_vy b)"

definition total_kinetic_energy :: "ball list \<Rightarrow> real" where
  "total_kinetic_energy bs = (\<Sum>b\<leftarrow>bs. 1 / 2 * real_of_int (ball_m b) * (ball_v b)\<^sup>2)"

text \<open>
  No pair of distinct balls of the list strictly overlaps: the distance of the centres is
  at least the sum of the radii.
\<close>

definition no_overlap :: "ball list \<Rightarrow> bool" where
  "no_overlap balls =
     (\<forall>i < length balls. \<forall>j < length balls. i \<noteq> j \<longrightarrow>
        real_of_int (ball_radius (balls ! i) + ball_radius (balls ! j))
          \<le> distance (ball_x (balls ! i), ball_y (balls ! i)) (ball_x (balls ! j), ball_y (balls ! j)))"





section \<open>Example balls\<close>


definition head_on_1 :: ball where
  "head_on_1 = \<lparr>ball_id = 0, ball_radius = 10, ball_color = (0, 0, 0, 255), ball_v = 5,
     ball_angle = 0, ball_x = 100, ball_y = 100\<rparr>"

definition head_on_2 :: ball where
  "head_on_2 = \<lparr>ball_id = 1, ball_radius = 10, ball_color = (0, 0, 0, 255), ball_v = 5,
     ball_angle = pi, ball_x = 115, ball_y = 100\<rparr>"

definition edge_ball :: ball where
  "edge_ball = \<lparr>ball_id = 0, ball_radius = 2, ball_color = (0, 0, 0, 255), ball_v = 1,
     ball_angle = 0, ball_x = 998, ball_y = 500\<rparr>"


text \<open>
  The head-on pair with its velocities exchanged, so that the balls overlap and move
  apart; a pair in exact tangency; a pair with one centre.
\<close>

definition apart_1 :: ball where
  "apart_1 = \<lparr>ball_id = 0, ball_radius = 10, ball_color = (0, 0, 0, 255), ball_v = 5,
     ball_angle = pi, ball_x = 100, ball_y = 100\<rparr>"

definition apart_2 :: ball where
  "apart_2 = \<lparr>ball_id = 1, ball_radius = 10, ball_color = (0, 0, 0, 255), ball_v = 5,
     ball_angle = 0, ball_x = 115, ball_y = 100\<rparr>"

definition touching_1 :: ball where
  "touching_1 = \<lparr>ball_id = 0, ball_radius = 10, ball_color = (0, 0, 0, 255), ball_v = 5,
     ball_angle = 0, ball_x = 100, ball_y = 100\<rparr>"

definition touching_2 :: ball where
  "touching_2 = \<lparr>ball_id = 1, ball_radius = 10, ball_color = (0, 0, 0, 255), ball_v = 5,
     ball_angle = pi, ball_x = 120, ball_y = 100\<rparr>"

definition stacked_1 :: ball where
  "stacked_1 = \<lparr>ball_id = 0, ball_radius = 10, ball_color = (0, 0, 0, 255), ball_v = 0,
     ball_angle = 0, ball_x = 100, ball_y = 100\<rparr>"

definition stacked_2 :: ball where
  "stacked_2 = \<lparr>ball_id = 1, ball_radius = 10, ball_color = (0, 0, 0, 255), ball_v = 0,
     ball_angle = 0, ball_x = 100, ball_y = 100\<rparr>"

text \<open>
  Choices of the random source: \<open>zero_draws\<close> yields the ball of radius 2 at \<open>(2, 2)\<close>,
  \<open>far_draws\<close> the same ball at \<open>(102, 2)\<close>; and the two balls a placement of two
  accepts from the choices \<open>zero_draws\<close>, \<open>zero_draws\<close>, \<open>far_draws\<close>.
\<close>

definition zero_draws :: draws where
  "zero_draws = \<lparr>draw_radius = 0, draw_color = (0, 0, 0, 0), draw_v = 0, draw_angle = 0,
     draw_x = 0, draw_y = 0\<rparr>"

definition far_draws :: draws where
  "far_draws = \<lparr>draw_radius = 0, draw_color = (0, 0, 0, 0), draw_v = 0, draw_angle = 0,
     draw_x = 100, draw_y = 0\<rparr>"

definition placed_first :: ball where
  "placed_first = \<lparr>ball_id = 0, ball_radius = 2, ball_color = (0, 0, 0, 0), ball_v = 0,
     ball_angle = 0, ball_x = 2, ball_y = 2\<rparr>"

definition placed_second :: ball where
  "placed_second = \<lparr>ball_id = 2, ball_radius = 2, ball_color = (0, 0, 0, 0), ball_v = 0,
     ball_angle = 0, ball_x = 102, ball_y = 2\<rparr>"

section \<open>The placement invariant\<close>

text \<open>No two distinct balls of the list satisfy \<^verbatim>\<open>is_collide\<close>.\<close>

definition clear_of :: "ball list \<Rightarrow> bool" where
  "clear_of balls =
     (\<forall>i < length balls. \<forall>j < length balls. i \<noteq> j \<longrightarrow> \<not> is_collide (balls ! i) (balls ! j))"

section \<open>Motion and the walls\<close>

lemma move_v [simp]: "ball_v (move b) = ball_v b"
  by (simp add: move_def Let_def split: prod.splits)

lemma move_radius [simp]: "ball_radius (move b) = ball_radius b"
  by (simp add: move_def Let_def split: prod.splits)

lemma move_x_bounds:
  assumes "0 \<le> ball_v b" "0 \<le> ball_radius b" "0 \<le> ball_x b" "ball_x b \<le> real_of_int WIDTH"
  shows "0 \<le> ball_x (move b) \<and> ball_x (move b) \<le> real_of_int WIDTH"
proof -
  let ?c = "cos (ball_angle b)"
  have neg: "?c < 0 \<Longrightarrow> ball_v b * ?c \<le> 0"
    using assms(1) by (simp add: mult_nonneg_nonpos)
  have pos: "0 < ?c \<Longrightarrow> 0 \<le> ball_v b * ?c"
    using assms(1) by simp
  have zero: "?c = 0 \<Longrightarrow> ball_v b * ?c = 0" by simp
  have r: "0 \<le> real_of_int (ball_radius b)" using assms(2) by simp
  consider "?c < 0" | "?c = 0" | "0 < ?c" by linarith
  then show ?thesis
  proof cases
    case 1
    with neg r assms(3,4) show ?thesis
      by (auto simp: move_def Let_def split: prod.splits if_splits)
  next
    case 2
    with assms(3,4) show ?thesis
      by (auto simp: move_def Let_def split: prod.splits if_splits)
  next
    case 3
    with pos r assms(3,4) show ?thesis
      by (auto simp: move_def Let_def split: prod.splits if_splits)
  qed
qed

lemma move_y_bounds:
  assumes "0 \<le> ball_v b" "0 \<le> ball_radius b" "0 \<le> ball_y b" "ball_y b \<le> real_of_int HEIGHT"
  shows "0 \<le> ball_y (move b) \<and> ball_y (move b) \<le> real_of_int HEIGHT"
proof -
  let ?s = "sin (ball_angle b)"
  have neg: "?s < 0 \<Longrightarrow> ball_v b * ?s \<le> 0"
    using assms(1) by (simp add: mult_nonneg_nonpos)
  have pos: "0 < ?s \<Longrightarrow> 0 \<le> ball_v b * ?s"
    using assms(1) by simp
  have r: "0 \<le> real_of_int (ball_radius b)" using assms(2) by simp
  consider "?s < 0" | "?s = 0" | "0 < ?s" by linarith
  then show ?thesis
  proof cases
    case 1
    with neg r assms(3,4) show ?thesis
      by (auto simp: move_def Let_def split: prod.splits if_splits)
  next
    case 2
    with assms(3,4) show ?thesis
      by (auto simp: move_def Let_def split: prod.splits if_splits)
  next
    case 3
    with pos r assms(3,4) show ?thesis
      by (auto simp: move_def Let_def split: prod.splits if_splits)
  qed
qed

lemma move_keeps_inside:
  assumes "0 \<le> ball_v b" "0 \<le> ball_radius b" "\<not> is_outside b"
  shows "\<not> is_outside (move b)"
  using move_x_bounds [of b] move_y_bounds [of b] assms
  by (simp add: is_outside_def not_less)

lemma funpow_move_inside:
  assumes "0 \<le> ball_v b" "0 \<le> ball_radius b" "\<not> is_outside b"
  shows "0 \<le> ball_v ((move ^^ n) b) \<and> 0 \<le> ball_radius ((move ^^ n) b)
       \<and> \<not> is_outside ((move ^^ n) b)"
proof (induction n)
  case 0
  from assms show ?case by simp
next
  case (Suc n)
  then show ?case by (simp add: move_keeps_inside)
qed

lemma collisions_single: "collisions [b] = Inr [b]"
  by (simp add: collisions_def bind_err_def)

lemma tick_single: "\<not> is_outside (move b) \<Longrightarrow> tick [b] = Inr [move b]"
  by (simp add: tick_def collisions_single bind_err_def)

lemma ticks_single:
  assumes "0 \<le> ball_v b" "0 \<le> ball_radius b" "\<not> is_outside b"
  shows "ticks n [b] = Inr [(move ^^ n) b]"
  using assms
proof (induction n arbitrary: b)
  case 0
  show ?case by simp
next
  case (Suc n)
  have in1: "\<not> is_outside (move b)"
    using Suc.prems by (rule move_keeps_inside)
  have "ticks (Suc n) [b] = ticks n [move b]"
    by (simp add: tick_single [OF in1] bind_err_def)
  also have "\<dots> = Inr [(move ^^ n) (move b)]"
    using Suc.prems in1 by (intro Suc.IH) simp_all
  finally show ?case by (simp add: funpow_swap1)
qed

text \<open>
  With the real number \<open>pi\<close> for the constant, a ball alone in the arena, with the
  non-negative speed and radius that the constructor gives every ball and the engine
  keeps, whose centre starts inside \<open>[0, WIDTH] \<times> [0, HEIGHT]\<close>, keeps its centre there
  under any number of \<^verbatim>\<open>move\<close> calls, and the simulation loop run on it alone never
  drops it. The proof rests on \<open>sin (pi - a) = sin a\<close>, which is what lets the vertical
  test read the heading that the horizontal test has replaced.
\<close>

lemma wall_containment:
  assumes "0 \<le> ball_v b" and "0 \<le> ball_radius b" and "\<not> is_outside b"
  shows "\<not> is_outside ((move ^^ n) b)
       \<and> 0 \<le> ball_x ((move ^^ n) b) \<and> ball_x ((move ^^ n) b) \<le> real_of_int WIDTH
       \<and> 0 \<le> ball_y ((move ^^ n) b) \<and> ball_y ((move ^^ n) b) \<le> real_of_int HEIGHT
       \<and> ticks n [b] = Inr [(move ^^ n) b]"
  using funpow_move_inside [OF assms, of n] ticks_single [OF assms, of n]
  by (simp add: is_outside_def not_less)

lemma wall_containment_example:
  "0 \<le> ball_v edge_ball \<and> 0 \<le> ball_radius edge_ball \<and> \<not> is_outside edge_ball
   \<and> move edge_ball = edge_ball\<lparr>ball_angle := pi\<rparr>
   \<and> \<not> is_outside ((move ^^ 3) edge_ball)
   \<and> ticks 3 [edge_ball] = Inr [(move ^^ 3) edge_ball]"
proof -
  have h: "0 \<le> ball_v edge_ball" "0 \<le> ball_radius edge_ball" "\<not> is_outside edge_ball"
    by (simp_all add: edge_ball_def is_outside_def WIDTH_def HEIGHT_def)
  have m: "move edge_ball = edge_ball\<lparr>ball_angle := pi\<rparr>"
    by (simp add: move_def edge_ball_def WIDTH_def HEIGHT_def)
  from wall_containment [OF h, of 3] h m show ?thesis by simp
qed






lemma move_with_pi: "move_with pi b = move b"
  by (simp add: move_with_def move_def)

text \<open>
  For any value of the constant, one \<^verbatim>\<open>move\<close> keeps the centre inside as long as
  replacing the heading \<open>a\<close> by \<open>p - a\<close> does not change the sign of its sine.
\<close>

lemma move_with_x_bounds:
  assumes "0 \<le> ball_v b" "0 \<le> ball_radius b" "0 \<le> ball_x b" "ball_x b \<le> real_of_int WIDTH"
  shows "0 \<le> ball_x (move_with p b) \<and> ball_x (move_with p b) \<le> real_of_int WIDTH"
proof -
  let ?c = "cos (ball_angle b)"
  have neg: "?c < 0 \<Longrightarrow> ball_v b * ?c \<le> 0"
    using assms(1) by (simp add: mult_nonneg_nonpos)
  have pos: "0 < ?c \<Longrightarrow> 0 \<le> ball_v b * ?c"
    using assms(1) by simp
  have r: "0 \<le> real_of_int (ball_radius b)" using assms(2) by simp
  consider "?c < 0" | "?c = 0" | "0 < ?c" by linarith
  then show ?thesis
  proof cases
    case 1
    with neg r assms(3,4) show ?thesis
      by (auto simp: move_with_def Let_def split: prod.splits if_splits)
  next
    case 2
    with assms(3,4) show ?thesis
      by (auto simp: move_with_def Let_def split: prod.splits if_splits)
  next
    case 3
    with pos r assms(3,4) show ?thesis
      by (auto simp: move_with_def Let_def split: prod.splits if_splits)
  qed
qed

lemma move_with_y_bounds:
  assumes "0 \<le> ball_v b" "0 \<le> ball_radius b" "0 \<le> ball_y b" "ball_y b \<le> real_of_int HEIGHT"
    and "sin (p - ball_angle b) < 0 \<longleftrightarrow> sin (ball_angle b) < 0"
    and "0 < sin (p - ball_angle b) \<longleftrightarrow> 0 < sin (ball_angle b)"
  shows "0 \<le> ball_y (move_with p b) \<and> ball_y (move_with p b) \<le> real_of_int HEIGHT"
proof -
  let ?s = "sin (ball_angle b)"
  have neg: "?s < 0 \<Longrightarrow> ball_v b * ?s \<le> 0"
    using assms(1) by (simp add: mult_nonneg_nonpos)
  have pos: "0 < ?s \<Longrightarrow> 0 \<le> ball_v b * ?s"
    using assms(1) by simp
  have r: "0 \<le> real_of_int (ball_radius b)" using assms(2) by simp
  consider "?s < 0" | "?s = 0" | "0 < ?s" by linarith
  then show ?thesis
  proof cases
    case 1
    with neg r assms(3-6) show ?thesis
      by (auto simp: move_with_def Let_def split: prod.splits if_splits)
  next
    case 2
    with assms(3-6) show ?thesis
      by (auto simp: move_with_def Let_def split: prod.splits if_splits)
  next
    case 3
    with pos r assms(3-6) show ?thesis
      by (auto simp: move_with_def Let_def split: prod.splits if_splits)
  qed
qed










section \<open>Properties of the collision of one pair\<close>

lemma ball_m_frame [simp]:
  "ball_m (b\<lparr>ball_x := a\<rparr>) = ball_m b"
  "ball_m (b\<lparr>ball_y := a\<rparr>) = ball_m b"
  "ball_m (b\<lparr>ball_v := a\<rparr>) = ball_m b"
  "ball_m (b\<lparr>ball_angle := a\<rparr>) = ball_m b"
  by (simp_all add: ball_m_def)

lemma ball_vx_frame [simp]:
  "ball_vx (b\<lparr>ball_x := a\<rparr>) = ball_vx b"
  "ball_vx (b\<lparr>ball_y := a\<rparr>) = ball_vx b"
  by (simp_all add: ball_vx_def)

lemma ball_vy_frame [simp]:
  "ball_vy (b\<lparr>ball_x := a\<rparr>) = ball_vy b"
  "ball_vy (b\<lparr>ball_y := a\<rparr>) = ball_vy b"
  by (simp_all add: ball_vy_def)

lemma center_dist_nonneg: "0 \<le> center_dist b1 b2"
  by (simp add: center_dist_def)

lemma contact_dist_nonzero: "contact_dist b1 b2 \<noteq> 0"
  by (simp add: contact_dist_def)

lemma cube_sum_pos:
  fixes a b :: int
  assumes "0 < a + b"
  shows "0 < a ^ 3 + b ^ 3"
proof -
  have eq: "2 * (a ^ 3 + b ^ 3) = (a + b) * (a ^ 2 + b ^ 2 + (a - b) ^ 2)"
    by (simp add: power2_eq_square power3_eq_cube algebra_simps)
  have "a \<noteq> 0 \<or> b \<noteq> 0" using assms by auto
  then have "0 < a ^ 2 + b ^ 2"
    by (metis add.commute add_pos_nonneg not_sum_power2_lt_zero pos2 sum_power2_gt_zero_iff zero_less_power2 zero_le_power2)
  moreover have "0 \<le> (a - b) ^ 2" by simp
  ultimately have "0 < a ^ 2 + b ^ 2 + (a - b) ^ 2" by linarith
  with assms have "0 < (a + b) * (a ^ 2 + b ^ 2 + (a - b) ^ 2)" by simp
  then have "0 < 2 * (a ^ 3 + b ^ 3)" by (simp only: eq)
  then show ?thesis by simp
qed

lemma mass_sum_pos:
  assumes "center_dist b1 b2 < min_distance b1 b2"
  shows "0 < ball_m b1 + ball_m b2"
proof -
  have "0 < real_of_int (ball_radius b1 + ball_radius b2)"
    using assms center_dist_nonneg [of b1 b2] by (simp add: min_distance_def)
  then have "0 < ball_radius b1 + ball_radius b2" by linarith
  then show ?thesis unfolding ball_m_def by (rule cube_sum_pos)
qed

lemma collide_pair_eq:
  "collide_pair b1 b2 =
     (if center_dist b1 b2 < min_distance b1 b2
        then (if 0 < velocity_along_normal b1 b2 then Inr (push_apart b1 b2) else Inr (bounce b1 b2))
      else Inr (b1, b2))"
proof (cases "center_dist b1 b2 < min_distance b1 b2")
  case False
  then show ?thesis
    by (simp add: collide_pair_def center_dist_def min_distance_def Let_def)
next
  case True
  then have m: "real_of_int (ball_m b1 + ball_m b2) \<noteq> 0"
    using mass_sum_pos [of b1 b2] by simp
  from True have lt: "sqrt ((ball_x b2 - ball_x b1) * (ball_x b2 - ball_x b1)
         + (ball_y b2 - ball_y b1) * (ball_y b2 - ball_y b1))
       < real_of_int (ball_radius b1 + ball_radius b2)"
    by (simp add: center_dist_def min_distance_def)
  show ?thesis
  proof (cases "center_dist b1 b2 = 0")
    case z: True
    then have z': "sqrt ((ball_x b2 - ball_x b1) * (ball_x b2 - ball_x b1)
         + (ball_y b2 - ball_y b1) * (ball_y b2 - ball_y b1)) = 0"
      by (simp only: center_dist_def)
    show ?thesis
      unfolding collide_pair_def Let_def
      using lt z' m True z
      by (simp only: if_True)
         (simp_all add: bind_err_def py_div_def min_distance_def
          velocity_along_normal_def normal_def overlap_def contact_dist_def push_apart_def
          bounce_def set_velocity_def new_velocity1_def new_velocity2_def impulse_def
          del: real_sqrt_eq_zero_cancel_iff)
  next
    case nz: False
    then have nz': "sqrt ((ball_x b2 - ball_x b1) * (ball_x b2 - ball_x b1)
         + (ball_y b2 - ball_y b1) * (ball_y b2 - ball_y b1)) \<noteq> 0"
      unfolding center_dist_def .
    show ?thesis
      unfolding collide_pair_def Let_def
      using lt nz' m
      apply (simp only: if_True if_False)
      apply (simp add: bind_err_def py_div_def min_distance_def center_dist_def
          velocity_along_normal_def normal_def overlap_def contact_dist_def push_apart_def
          bounce_def set_velocity_def new_velocity1_def new_velocity2_def impulse_def
          del: real_sqrt_eq_zero_cancel_iff)
      done
  qed
qed

lemma atan2_cos: "sqrt (x\<^sup>2 + y\<^sup>2) * cos (atan2 y x) = x"
proof -
  have root: "x \<noteq> 0 \<Longrightarrow> sqrt (x\<^sup>2 + y\<^sup>2) = \<bar>x\<bar> * sqrt (1 + (y / x)\<^sup>2)" for x y :: real
  proof -
    assume "x \<noteq> 0"
    then have "x\<^sup>2 + y\<^sup>2 = x\<^sup>2 * (1 + (y / x)\<^sup>2)"
      by (simp add: power_divide field_simps)
    then show ?thesis by (simp add: real_sqrt_mult)
  qed
  have pos: "0 < sqrt (1 + (y / x)\<^sup>2)"
    by (simp add: add_pos_nonneg)
  then have nz: "1 + (y / x)\<^sup>2 \<noteq> 0" by auto
  consider "0 < x" | "x < 0" "0 \<le> y" | "x < 0" "y < 0" | "x = 0" by linarith
  then show ?thesis
  proof cases
    case 1
    then show ?thesis using root [of x y] pos nz
      by (simp add: atan2_def cos_arctan)
  next
    case 2
    then show ?thesis using root [of x y] pos nz
      by (simp add: atan2_def cos_arctan)
  next
    case 3
    then show ?thesis using root [of x y] pos nz
      by (simp add: atan2_def cos_arctan)
  next
    case 4
    then show ?thesis by (simp add: atan2_def)
  qed
qed

lemma atan2_sin: "sqrt (x\<^sup>2 + y\<^sup>2) * sin (atan2 y x) = y"
proof -
  have root: "x \<noteq> 0 \<Longrightarrow> sqrt (x\<^sup>2 + y\<^sup>2) = \<bar>x\<bar> * sqrt (1 + (y / x)\<^sup>2)" for x y :: real
  proof -
    assume "x \<noteq> 0"
    then have "x\<^sup>2 + y\<^sup>2 = x\<^sup>2 * (1 + (y / x)\<^sup>2)"
      by (simp add: power_divide field_simps)
    then show ?thesis by (simp add: real_sqrt_mult)
  qed
  have pos: "0 < sqrt (1 + (y / x)\<^sup>2)"
    by (simp add: add_pos_nonneg)
  consider "0 < x" | "x < 0" "0 \<le> y" | "x < 0" "y < 0" | "x = 0" by linarith
  then show ?thesis
  proof cases
    case 1
    then show ?thesis using root [of x y] pos
      by (simp add: atan2_def sin_arctan)
  next
    case 2
    then show ?thesis using root [of x y] pos
      by (simp add: atan2_def sin_arctan)
  next
    case 3
    then show ?thesis using root [of x y] pos
      by (simp add: atan2_def sin_arctan)
  next
    case 4
    then show ?thesis by (simp add: atan2_def)
  qed
qed

lemma set_velocity_vx [simp]: "ball_vx (set_velocity w b) = fst w"
  by (simp add: set_velocity_def ball_vx_def atan2_cos)

lemma set_velocity_vy [simp]: "ball_vy (set_velocity w b) = snd w"
  by (simp add: set_velocity_def ball_vy_def atan2_sin)

lemma set_velocity_speed [simp]: "(ball_v (set_velocity w b))\<^sup>2 = (fst w)\<^sup>2 + (snd w)\<^sup>2"
  by (simp add: set_velocity_def)

lemma speed_squared: "(ball_v b)\<^sup>2 = (ball_vx b)\<^sup>2 + (ball_vy b)\<^sup>2"
proof -
  have "(ball_vx b)\<^sup>2 + (ball_vy b)\<^sup>2
          = (ball_v b)\<^sup>2 * ((cos (ball_angle b))\<^sup>2 + (sin (ball_angle b))\<^sup>2)"
    unfolding ball_vx_def ball_vy_def by (simp only: power_mult_distrib distrib_left)
  also have "\<dots> = (ball_v b)\<^sup>2" by simp
  finally show ?thesis by simp
qed

lemma normal_unit: "(fst (normal b1 b2))\<^sup>2 + (snd (normal b1 b2))\<^sup>2 = 1"
proof (cases "center_dist b1 b2 = 0")
  case True
  then show ?thesis by (simp add: normal_def)
next
  case False
  let ?dx = "ball_x b2 - ball_x b1" and ?dy = "ball_y b2 - ball_y b1"
  have sq: "(center_dist b1 b2)\<^sup>2 = ?dx\<^sup>2 + ?dy\<^sup>2"
    by (simp add: center_dist_def power2_eq_square)
  have "(?dx / center_dist b1 b2)\<^sup>2 + (?dy / center_dist b1 b2)\<^sup>2
          = (?dx\<^sup>2 + ?dy\<^sup>2) / (center_dist b1 b2)\<^sup>2"
    by (simp add: power_divide add_divide_distrib)
  also have "\<dots> = 1" using False by (simp add: sq [symmetric])
  finally show ?thesis using False by (simp add: normal_def)
qed

lemma elastic_momentum:
  fixes m1 m2 :: real
  shows "m1 * (u1 + J * m2 * n) + m2 * (u2 - J * m1 * n) = m1 * u1 + m2 * u2"
  by (simp add: algebra_simps)

lemma elastic_energy:
  fixes m1 m2 :: real
  assumes M: "m1 + m2 \<noteq> 0" and unit: "nx\<^sup>2 + ny\<^sup>2 = 1"
    and J: "J = 2 * ((ux2 - ux1) * nx + (uy2 - uy1) * ny) / (m1 + m2)"
  shows "m1 * ((ux1 + J * m2 * nx)\<^sup>2 + (uy1 + J * m2 * ny)\<^sup>2)
       + m2 * ((ux2 - J * m1 * nx)\<^sup>2 + (uy2 - J * m1 * ny)\<^sup>2)
       = m1 * (ux1\<^sup>2 + uy1\<^sup>2) + m2 * (ux2\<^sup>2 + uy2\<^sup>2)"
proof -
  define van where "van = (ux2 - ux1) * nx + (uy2 - uy1) * ny"
  have JM: "J * (m1 + m2) = 2 * van" using M J by (simp add: van_def)
  have "m1 * ((ux1 + J * m2 * nx)\<^sup>2 + (uy1 + J * m2 * ny)\<^sup>2)
       + m2 * ((ux2 - J * m1 * nx)\<^sup>2 + (uy2 - J * m1 * ny)\<^sup>2)
       - (m1 * (ux1\<^sup>2 + uy1\<^sup>2) + m2 * (ux2\<^sup>2 + uy2\<^sup>2))
       = m1 * m2 * J * (J * (m1 + m2) * (nx\<^sup>2 + ny\<^sup>2) - 2 * van)"
    unfolding van_def by (simp add: power2_eq_square algebra_simps)
  also have "\<dots> = 0" by (simp add: unit JM)
  finally show ?thesis by simp
qed

lemma collisions_pair:
  "collisions [b1, b2] = bind_err (collide_pair b1 b2) (\<lambda>(c1, c2). Inr [c1, c2])"
  by (simp add: collisions_def upt_rec bind_err_def split: sum.splits prod.splits)

lemma ball_m_set_velocity [simp]: "ball_m (set_velocity w b) = ball_m b"
  by (simp add: set_velocity_def)

lemma push_apart_frame [simp]:
  "ball_m (fst (push_apart b1 b2)) = ball_m b1" "ball_m (snd (push_apart b1 b2)) = ball_m b2"
  "ball_vx (fst (push_apart b1 b2)) = ball_vx b1" "ball_vx (snd (push_apart b1 b2)) = ball_vx b2"
  "ball_vy (fst (push_apart b1 b2)) = ball_vy b1" "ball_vy (snd (push_apart b1 b2)) = ball_vy b2"
  "ball_v (fst (push_apart b1 b2)) = ball_v b1" "ball_v (snd (push_apart b1 b2)) = ball_v b2"
  "ball_angle (fst (push_apart b1 b2)) = ball_angle b1" "ball_angle (snd (push_apart b1 b2)) = ball_angle b2"
  by (simp_all add: push_apart_def)

lemma bounce_momentum:
  "total_momentum [fst (bounce b1 b2), snd (bounce b1 b2)] = total_momentum [b1, b2]"
  by (simp add: total_momentum_def bounce_def new_velocity1_def new_velocity2_def
      elastic_momentum)

lemma bounce_energy:
  assumes "center_dist b1 b2 < min_distance b1 b2"
  shows "total_kinetic_energy [fst (bounce b1 b2), snd (bounce b1 b2)] = total_kinetic_energy [b1, b2]"
proof -
  let ?m1 = "real_of_int (ball_m b1)" and ?m2 = "real_of_int (ball_m b2)"
  have M: "?m1 + ?m2 \<noteq> 0" using mass_sum_pos [OF assms] by linarith
  have J: "impulse b1 b2
      = 2 * ((ball_vx b2 - ball_vx b1) * fst (normal b1 b2)
           + (ball_vy b2 - ball_vy b1) * snd (normal b1 b2)) / (?m1 + ?m2)"
    by (simp add: impulse_def velocity_along_normal_def)
  have "?m1 * ((fst (new_velocity1 b1 b2))\<^sup>2 + (snd (new_velocity1 b1 b2))\<^sup>2)
      + ?m2 * ((fst (new_velocity2 b1 b2))\<^sup>2 + (snd (new_velocity2 b1 b2))\<^sup>2)
      = ?m1 * ((ball_vx b1)\<^sup>2 + (ball_vy b1)\<^sup>2) + ?m2 * ((ball_vx b2)\<^sup>2 + (ball_vy b2)\<^sup>2)"
    unfolding new_velocity1_def new_velocity2_def fst_conv snd_conv
    by (rule elastic_energy [OF M normal_unit J])
  then show ?thesis
    by (simp add: total_kinetic_energy_def bounce_def speed_squared [of b1] speed_squared [of b2])
qed

lemma collide_pair_total: "\<exists>p. collide_pair b1 b2 = Inr p"
  by (simp add: collide_pair_eq)

lemma collisions_inner_total: "\<exists>bs'. collisions_inner i js bs = Inr bs'"
proof (induction js arbitrary: bs)
  case Nil
  show ?case by simp
next
  case (Cons j js)
  obtain c1 c2 where "collide_pair (bs ! i) (bs ! j) = Inr (c1, c2)"
    using collide_pair_total [of "bs ! i" "bs ! j"] by auto
  with Cons.IH [of "bs[i := c1, j := c2]"] show ?case
    by (simp add: bind_err_def)
qed

lemma collisions_outer_total: "\<exists>bs'. collisions_outer is bs = Inr bs'"
proof (induction "is" arbitrary: bs)
  case Nil
  show ?case by simp
next
  case (Cons i "is")
  obtain bs1 where "collisions_inner i [Suc i..<length bs] bs = Inr bs1"
    using collisions_inner_total by blast
  with Cons.IH [of bs1] show ?case
    by (simp add: bind_err_def)
qed

lemma collisions_total: "\<exists>bs'. collisions bs = Inr bs'"
  unfolding collisions_def by (rule collisions_outer_total)

lemma collide_pair_conserves:
  assumes "collide_pair b1 b2 = Inr (c1, c2)"
  shows "total_momentum [c1, c2] = total_momentum [b1, b2]
       \<and> total_kinetic_energy [c1, c2] = total_kinetic_energy [b1, b2]"
proof (cases "center_dist b1 b2 < min_distance b1 b2")
  case False
  with assms show ?thesis by (simp add: collide_pair_eq)
next
  case True
  show ?thesis
  proof (cases "0 < velocity_along_normal b1 b2")
    case sep: True
    with True assms have "c1 = fst (push_apart b1 b2)" "c2 = snd (push_apart b1 b2)"
      by (auto simp: collide_pair_eq)
    then show ?thesis
      by (simp add: total_momentum_def total_kinetic_energy_def)
  next
    case app: False
    with True assms have "c1 = fst (bounce b1 b2)" "c2 = snd (bounce b1 b2)"
      by (auto simp: collide_pair_eq)
    then show ?thesis
      using bounce_momentum [of b1 b2] bounce_energy [OF True] by simp
  qed
qed

text \<open>The engine keeps the radii, and the speeds non-negative.\<close>

lemma collide_pair_keeps_speed_sign:
  assumes "collide_pair b1 b2 = Inr (c1, c2)" and "0 \<le> ball_v b1" "0 \<le> ball_v b2"
  shows "0 \<le> ball_v c1 \<and> 0 \<le> ball_v c2
       \<and> ball_radius c1 = ball_radius b1 \<and> ball_radius c2 = ball_radius b2"
  using assms
  by (auto simp: collide_pair_eq push_apart_def bounce_def set_velocity_def split: if_splits)

lemma head_on_center_dist: "center_dist head_on_1 head_on_2 = 15"
proof -
  have "sqrt (15 * 15) = \<bar>15::real\<bar>" by (rule real_sqrt_abs2)
  then show ?thesis by (simp add: center_dist_def head_on_1_def head_on_2_def)
qed

lemma head_on_velocities:
  "ball_vx head_on_1 = 5" "ball_vy head_on_1 = 0" "ball_vx head_on_2 = - 5" "ball_vy head_on_2 = 0"
  by (simp_all add: ball_vx_def ball_vy_def head_on_1_def head_on_2_def)

lemma head_on_normal: "normal head_on_1 head_on_2 = (1, 0)"
  by (simp add: normal_def head_on_center_dist) (simp add: head_on_1_def head_on_2_def)

lemma head_on_approaching: "velocity_along_normal head_on_1 head_on_2 = - 10"
  by (simp add: velocity_along_normal_def head_on_normal head_on_velocities)

text \<open>
  Claim C1. A pair that overlaps and is approaching gets the impulse response from one run
  of the engine over the two balls, and the response keeps the total momentum and the
  total kinetic energy (in exact real arithmetic).
\<close>

theorem collision_conserves_momentum_and_energy:
  assumes "center_dist b1 b2 < min_distance b1 b2"
    and "velocity_along_normal b1 b2 \<le> 0"
  shows "collisions [b1, b2] = Inr [fst (bounce b1 b2), snd (bounce b1 b2)]
       \<and> total_momentum [fst (bounce b1 b2), snd (bounce b1 b2)] = total_momentum [b1, b2]
       \<and> total_kinetic_energy [fst (bounce b1 b2), snd (bounce b1 b2)]
           = total_kinetic_energy [b1, b2]"
proof -
  from assms have eq: "collide_pair b1 b2 = Inr (fst (bounce b1 b2), snd (bounce b1 b2))"
    by (simp add: collide_pair_eq)
  then have "collisions [b1, b2] = Inr [fst (bounce b1 b2), snd (bounce b1 b2)]"
    by (simp add: collisions_pair bind_err_def split: prod.splits)
  with collide_pair_conserves [OF eq] show ?thesis by simp
qed

theorem collision_conserves_witness:
  "center_dist head_on_1 head_on_2 < min_distance head_on_1 head_on_2
   \<and> velocity_along_normal head_on_1 head_on_2 \<le> 0
   \<and> collisions [head_on_1, head_on_2]
       = Inr [fst (bounce head_on_1 head_on_2), snd (bounce head_on_1 head_on_2)]
   \<and> total_momentum [fst (bounce head_on_1 head_on_2), snd (bounce head_on_1 head_on_2)] = (0, 0)
   \<and> total_kinetic_energy [fst (bounce head_on_1 head_on_2), snd (bounce head_on_1 head_on_2)]
       = 25000"
proof -
  have d: "center_dist head_on_1 head_on_2 < min_distance head_on_1 head_on_2"
    by (simp add: head_on_center_dist min_distance_def) (simp add: head_on_1_def head_on_2_def)
  have a: "velocity_along_normal head_on_1 head_on_2 \<le> 0"
    by (simp add: head_on_approaching)
  have p: "total_momentum [head_on_1, head_on_2] = (0, 0)"
    by (simp add: total_momentum_def head_on_velocities) (simp add: ball_m_def head_on_1_def head_on_2_def)
  have e: "total_kinetic_energy [head_on_1, head_on_2] = 25000"
    by (simp add: total_kinetic_energy_def ball_m_def head_on_1_def head_on_2_def)
  from collision_conserves_momentum_and_energy [OF d a] d a p e show ?thesis by simp
qed

lemma bounce_position [simp]:
  "ball_x (fst (bounce b1 b2)) = ball_x (fst (push_apart b1 b2))"
  "ball_y (fst (bounce b1 b2)) = ball_y (fst (push_apart b1 b2))"
  "ball_x (snd (bounce b1 b2)) = ball_x (snd (push_apart b1 b2))"
  "ball_y (snd (bounce b1 b2)) = ball_y (snd (push_apart b1 b2))"
  by (simp_all add: bounce_def set_velocity_def)

lemma bounce_velocity [simp]:
  "ball_vx (fst (bounce b1 b2)) = fst (new_velocity1 b1 b2)"
  "ball_vy (fst (bounce b1 b2)) = snd (new_velocity1 b1 b2)"
  "ball_vx (snd (bounce b1 b2)) = fst (new_velocity2 b1 b2)"
  "ball_vy (snd (bounce b1 b2)) = snd (new_velocity2 b1 b2)"
  by (simp_all add: bounce_def)

text \<open>
  Claim C2. Two balls of radius 10 (pseudo-mass 1000 each) with centres \<open>(100, 100)\<close> and
  \<open>(115, 100)\<close> and velocities \<open>(5, 0)\<close> and \<open>(-5, 0)\<close>: one pass of the engine leaves
  them with velocities \<open>(-5, 0)\<close> and \<open>(5, 0)\<close>, and the distance of the corrected
  centres is exactly 20, the sum of the radii.
\<close>

theorem head_on_example:
  assumes r: "ball_radius b1 = 10" "ball_radius b2 = 10"
    and p: "ball_x b1 = 100" "ball_y b1 = 100" "ball_x b2 = 115" "ball_y b2 = 100"
    and w: "ball_vx b1 = 5" "ball_vy b1 = 0" "ball_vx b2 = - 5" "ball_vy b2 = 0"
  shows "\<exists>c1 c2. collisions [b1, b2] = Inr [c1, c2]
       \<and> ball_m b1 = 1000 \<and> ball_m b2 = 1000
       \<and> ball_vx c1 = - 5 \<and> ball_vy c1 = 0 \<and> ball_vx c2 = 5 \<and> ball_vy c2 = 0
       \<and> distance (ball_x c1, ball_y c1) (ball_x c2, ball_y c2) = 20
       \<and> distance (ball_x c1, ball_y c1) (ball_x c2, ball_y c2)
           = real_of_int (ball_radius c1 + ball_radius c2)"
proof -
  have m: "ball_m b1 = 1000" "ball_m b2 = 1000"
    using r by (simp_all add: ball_m_def)
  have "sqrt (15 * 15) = \<bar>15::real\<bar>" by (rule real_sqrt_abs2)
  then have d: "center_dist b1 b2 = 15"
    using p by (simp add: center_dist_def)
  have md: "min_distance b1 b2 = 20"
    using r by (simp add: min_distance_def)
  have n: "normal b1 b2 = (1, 0)"
    using p by (simp add: normal_def d)
  have ov: "overlap b1 b2 = 5"
    by (simp add: overlap_def contact_dist_def d md)
  have van: "velocity_along_normal b1 b2 = - 10"
    by (simp add: velocity_along_normal_def n w)
  have imp: "impulse b1 b2 = - (1 / 100)"
    by (simp add: impulse_def van m)
  have eq: "collide_pair b1 b2 = Inr (bounce b1 b2)"
    by (simp add: collide_pair_eq d md van)
  have col: "collisions [b1, b2] = Inr [fst (bounce b1 b2), snd (bounce b1 b2)]"
    by (simp add: collisions_pair eq bind_err_def split: prod.splits)
  have v1: "new_velocity1 b1 b2 = (- 5, 0)" and v2: "new_velocity2 b1 b2 = (5, 0)"
    by (simp_all add: new_velocity1_def new_velocity2_def imp m n w)
  have x: "ball_x (fst (push_apart b1 b2)) = 195 / 2" "ball_y (fst (push_apart b1 b2)) = 100"
      "ball_x (snd (push_apart b1 b2)) = 235 / 2" "ball_y (snd (push_apart b1 b2)) = 100"
    by (simp_all add: push_apart_def ov n p)
  have rr: "ball_radius (fst (bounce b1 b2)) = 10" "ball_radius (snd (bounce b1 b2)) = 10"
    using r by (simp_all add: bounce_def set_velocity_def push_apart_def)
  have "sqrt (20 * 20) = \<bar>20::real\<bar>" by (rule real_sqrt_abs2)
  then have dd: "distance (ball_x (fst (bounce b1 b2)), ball_y (fst (bounce b1 b2)))
            (ball_x (snd (bounce b1 b2)), ball_y (snd (bounce b1 b2))) = 20"
    by (simp add: distance_def x power2_eq_square)
  show ?thesis
    using col m v1 v2 dd rr by simp
qed

theorem head_on_example_witness:
  "ball_radius head_on_1 = 10 \<and> ball_radius head_on_2 = 10
   \<and> ball_x head_on_1 = 100 \<and> ball_y head_on_1 = 100
   \<and> ball_x head_on_2 = 115 \<and> ball_y head_on_2 = 100
   \<and> ball_vx head_on_1 = 5 \<and> ball_vy head_on_1 = 0
   \<and> ball_vx head_on_2 = - 5 \<and> ball_vy head_on_2 = 0
   \<and> (\<exists>c1 c2. collisions [head_on_1, head_on_2] = Inr [c1, c2]
         \<and> ball_vx c1 = - 5 \<and> ball_vy c1 = 0 \<and> ball_vx c2 = 5 \<and> ball_vy c2 = 0
         \<and> distance (ball_x c1, ball_y c1) (ball_x c2, ball_y c2) = 20)"
proof -
  have r: "ball_radius head_on_1 = 10" "ball_radius head_on_2 = 10"
    and p: "ball_x head_on_1 = 100" "ball_y head_on_1 = 100"
      "ball_x head_on_2 = 115" "ball_y head_on_2 = 100"
    by (simp_all add: head_on_1_def head_on_2_def)
  note w = head_on_velocities
  from head_on_example [OF r p w] r p w show ?thesis by auto
qed

text \<open>
  Claim C7. An overlapping pair whose relative velocity along the normal is strictly
  positive is pushed apart, each ball by half the overlap along the normal, and nothing
  else changes: both speeds and both headings stay as they were.
\<close>

theorem separating_pair_skip:
  assumes "center_dist b1 b2 < min_distance b1 b2"
    and "0 < velocity_along_normal b1 b2"
  shows "collisions [b1, b2] =
      Inr [b1\<lparr>ball_x := ball_x b1 - overlap b1 b2 * fst (normal b1 b2) * 0.5,
              ball_y := ball_y b1 - overlap b1 b2 * snd (normal b1 b2) * 0.5\<rparr>,
           b2\<lparr>ball_x := ball_x b2 + overlap b1 b2 * fst (normal b1 b2) * 0.5,
              ball_y := ball_y b2 + overlap b1 b2 * snd (normal b1 b2) * 0.5\<rparr>]
    \<and> (\<exists>c1 c2. collisions [b1, b2] = Inr [c1, c2]
          \<and> ball_v c1 = ball_v b1 \<and> ball_angle c1 = ball_angle b1
          \<and> ball_v c2 = ball_v b2 \<and> ball_angle c2 = ball_angle b2)"
  using assms
  by (simp add: collisions_pair collide_pair_eq bind_err_def push_apart_def)

lemma apart_center_dist: "center_dist apart_1 apart_2 = 15"
proof -
  have "sqrt (15 * 15) = \<bar>15::real\<bar>" by (rule real_sqrt_abs2)
  then show ?thesis by (simp add: center_dist_def apart_1_def apart_2_def)
qed

lemma apart_normal: "normal apart_1 apart_2 = (1, 0)"
  by (simp add: normal_def apart_center_dist) (simp add: apart_1_def apart_2_def)

lemma apart_separating: "velocity_along_normal apart_1 apart_2 = 10"
  by (simp add: velocity_along_normal_def apart_normal)
     (simp add: ball_vx_def apart_1_def apart_2_def)

theorem separating_pair_skip_witness:
  "center_dist apart_1 apart_2 < min_distance apart_1 apart_2
   \<and> 0 < velocity_along_normal apart_1 apart_2
   \<and> collisions [apart_1, apart_2]
       = Inr [apart_1\<lparr>ball_x := 195 / 2\<rparr>, apart_2\<lparr>ball_x := 235 / 2\<rparr>]"
proof -
  have md: "min_distance apart_1 apart_2 = 20"
    by (simp add: min_distance_def apart_1_def apart_2_def)
  have d: "center_dist apart_1 apart_2 < min_distance apart_1 apart_2"
    by (simp add: apart_center_dist md)
  have s: "0 < velocity_along_normal apart_1 apart_2"
    by (simp add: apart_separating)
  have ov: "overlap apart_1 apart_2 = 5"
    by (simp add: overlap_def contact_dist_def apart_center_dist md)
  from separating_pair_skip [OF d s] d s show ?thesis
    by (simp add: ov apart_normal) (simp add: apart_1_def apart_2_def)
qed

section \<open>Detection thresholds\<close>

lemma distance_center_dist:
  "distance (ball_x b1, ball_y b1) (ball_x b2, ball_y b2) = center_dist b1 b2"
proof -
  have "(ball_x b1 - ball_x b2)\<^sup>2 = (ball_x b2 - ball_x b1) * (ball_x b2 - ball_x b1)"
    "(ball_y b1 - ball_y b2)\<^sup>2 = (ball_y b2 - ball_y b1) * (ball_y b2 - ball_y b1)"
    by (simp_all add: power2_eq_square algebra_simps)
  then show ?thesis by (simp add: distance_def center_dist_def)
qed

lemma is_collide_iff: "is_collide b1 b2 \<longleftrightarrow> center_dist b1 b2 \<le> min_distance b1 b2"
  by (simp add: is_collide_def distance_center_dist min_distance_def)

lemma normal_nonzero: "fst (normal b1 b2) \<noteq> 0 \<or> snd (normal b1 b2) \<noteq> 0"
proof (rule ccontr)
  assume "\<not> ?thesis"
  then have "(fst (normal b1 b2))\<^sup>2 + (snd (normal b1 b2))\<^sup>2 = 0" by simp
  with normal_unit [of b1 b2] show False by simp
qed

lemma overlap_pos:
  assumes "center_dist b1 b2 < min_distance b1 b2"
    and "R_MIN \<le> ball_radius b1" "R_MIN \<le> ball_radius b2"
  shows "0 < overlap b1 b2"
proof (cases "center_dist b1 b2 = 0")
  case True
  have "4 \<le> ball_radius b1 + ball_radius b2"
    using assms(2,3) by (simp add: R_MIN_def)
  then have "4 \<le> min_distance b1 b2" by (simp add: min_distance_def)
  with True show ?thesis by (simp add: overlap_def contact_dist_def)
next
  case False
  with assms(1) show ?thesis by (simp add: overlap_def contact_dist_def)
qed

lemma push_apart_moves:
  assumes "0 < overlap b1 b2"
  shows "fst (push_apart b1 b2) \<noteq> b1"
proof
  assume eq: "fst (push_apart b1 b2) = b1"
  have "ball_x (fst (push_apart b1 b2)) = ball_x b1" "ball_y (fst (push_apart b1 b2)) = ball_y b1"
    by (simp_all only: eq)
  then have "overlap b1 b2 * fst (normal b1 b2) = 0" "overlap b1 b2 * snd (normal b1 b2) = 0"
    by (simp_all add: push_apart_def)
  with assms normal_nonzero [of b1 b2] show False by auto
qed

lemma bounce_moves:
  assumes "0 < overlap b1 b2"
  shows "fst (bounce b1 b2) \<noteq> b1"
proof
  assume eq: "fst (bounce b1 b2) = b1"
  have "ball_x (fst (bounce b1 b2)) = ball_x b1" "ball_y (fst (bounce b1 b2)) = ball_y b1"
    by (simp_all only: eq)
  then have "overlap b1 b2 * fst (normal b1 b2) = 0" "overlap b1 b2 * snd (normal b1 b2) = 0"
    by (simp_all add: bounce_def set_velocity_def push_apart_def)
  with assms normal_nonzero [of b1 b2] show False by auto
qed

lemma collide_pair_changes_iff:
  assumes "R_MIN \<le> ball_radius b1" "R_MIN \<le> ball_radius b2"
  shows "collide_pair b1 b2 \<noteq> Inr (b1, b2) \<longleftrightarrow> center_dist b1 b2 < min_distance b1 b2"
proof (cases "center_dist b1 b2 < min_distance b1 b2")
  case False
  then show ?thesis by (simp add: collide_pair_eq)
next
  case True
  have ov: "0 < overlap b1 b2" using True assms by (rule overlap_pos)
  have "push_apart b1 b2 \<noteq> (b1, b2)" "bounce b1 b2 \<noteq> (b1, b2)"
    using push_apart_moves [OF ov] bounce_moves [OF ov] by (auto simp: prod_eq_iff)
  with True show ?thesis by (simp add: collide_pair_eq)
qed

text \<open>
  Claim C6. For balls of admissible radius, \<^verbatim>\<open>is_collide\<close> holds exactly when the
  distance of the centres is at most the sum of the radii, while the engine touches the
  pair exactly when the distance is strictly less; the two differ exactly at equality.
\<close>

theorem placement_and_engine_thresholds:
  assumes "R_MIN \<le> ball_radius b1" and "R_MIN \<le> ball_radius b2"
  shows "(is_collide b1 b2 \<longleftrightarrow>
            distance (ball_x b1, ball_y b1) (ball_x b2, ball_y b2)
              \<le> real_of_int (ball_radius b1 + ball_radius b2))
       \<and> (collide_pair b1 b2 \<noteq> Inr (b1, b2) \<longleftrightarrow>
            distance (ball_x b1, ball_y b1) (ball_x b2, ball_y b2)
              < real_of_int (ball_radius b1 + ball_radius b2))
       \<and> (is_collide b1 b2 \<and> collide_pair b1 b2 = Inr (b1, b2) \<longleftrightarrow>
            distance (ball_x b1, ball_y b1) (ball_x b2, ball_y b2)
              = real_of_int (ball_radius b1 + ball_radius b2))"
  using collide_pair_changes_iff [OF assms] is_collide_iff [of b1 b2]
  by (auto simp: distance_center_dist min_distance_def)

theorem placement_and_engine_thresholds_witness:
  "R_MIN \<le> ball_radius touching_1 \<and> R_MIN \<le> ball_radius touching_2
   \<and> distance (ball_x touching_1, ball_y touching_1) (ball_x touching_2, ball_y touching_2) = 20
   \<and> is_collide touching_1 touching_2
   \<and> collide_pair touching_1 touching_2 = Inr (touching_1, touching_2)"
proof -
  have r: "R_MIN \<le> ball_radius touching_1" "R_MIN \<le> ball_radius touching_2"
    by (simp_all add: R_MIN_def touching_1_def touching_2_def)
  have "sqrt (20 * 20) = \<bar>20::real\<bar>" by (rule real_sqrt_abs2)
  then have d: "distance (ball_x touching_1, ball_y touching_1)
      (ball_x touching_2, ball_y touching_2) = 20"
    by (simp add: distance_def touching_1_def touching_2_def power2_eq_square)
  have s: "real_of_int (ball_radius touching_1 + ball_radius touching_2) = 20"
    by (simp add: touching_1_def touching_2_def)
  from placement_and_engine_thresholds [OF r] r d s show ?thesis by simp
qed

text \<open>
  Claim C8. The engine never raises, whatever the list of balls: every division it
  performs has a non-zero divisor. For two balls with one centre the normal is \<open>(1, 0)\<close>
  and the distance 1, so the balls are pushed apart along the x-axis by half of the sum of
  the radii minus one each, and only the x-components of the velocities can change.
\<close>

theorem coincident_centres_handled:
  assumes "ball_x b2 = ball_x b1" and "ball_y b2 = ball_y b1"
    and "0 < ball_radius b1 + ball_radius b2"
  shows "(\<exists>bs'. collisions bs = Inr bs')
       \<and> normal b1 b2 = (1, 0) \<and> contact_dist b1 b2 = 1
       \<and> (\<exists>c1 c2. collisions [b1, b2] = Inr [c1, c2]
            \<and> ball_x c1 = ball_x b1 - real_of_int (ball_radius b1 + ball_radius b2 - 1) / 2
            \<and> ball_y c1 = ball_y b1
            \<and> ball_x c2 = ball_x b2 + real_of_int (ball_radius b1 + ball_radius b2 - 1) / 2
            \<and> ball_y c2 = ball_y b2
            \<and> ball_vy c1 = ball_vy b1 \<and> ball_vy c2 = ball_vy b2)"
proof -
  have d: "center_dist b1 b2 = 0" using assms(1,2) by (simp add: center_dist_def)
  then have n: "normal b1 b2 = (1, 0)" and c: "contact_dist b1 b2 = 1"
    by (simp_all add: normal_def contact_dist_def)
  have lt: "center_dist b1 b2 < min_distance b1 b2"
    using assms(3) d by (simp add: min_distance_def)
  have ov: "overlap b1 b2 = real_of_int (ball_radius b1 + ball_radius b2 - 1)"
    by (simp add: overlap_def c min_distance_def)
  have px: "ball_x (fst (push_apart b1 b2)) = ball_x b1 - real_of_int (ball_radius b1 + ball_radius b2 - 1) / 2"
    "ball_y (fst (push_apart b1 b2)) = ball_y b1"
    "ball_x (snd (push_apart b1 b2)) = ball_x b2 + real_of_int (ball_radius b1 + ball_radius b2 - 1) / 2"
    "ball_y (snd (push_apart b1 b2)) = ball_y b2"
    by (simp_all add: push_apart_def ov n)
  have vy: "snd (new_velocity1 b1 b2) = ball_vy b1" "snd (new_velocity2 b1 b2) = ball_vy b2"
    by (simp_all add: new_velocity1_def new_velocity2_def n)
  have "\<exists>c1 c2. collisions [b1, b2] = Inr [c1, c2]
            \<and> ball_x c1 = ball_x b1 - real_of_int (ball_radius b1 + ball_radius b2 - 1) / 2
            \<and> ball_y c1 = ball_y b1
            \<and> ball_x c2 = ball_x b2 + real_of_int (ball_radius b1 + ball_radius b2 - 1) / 2
            \<and> ball_y c2 = ball_y b2
            \<and> ball_vy c1 = ball_vy b1 \<and> ball_vy c2 = ball_vy b2"
  proof (cases "0 < velocity_along_normal b1 b2")
    case True
    with lt have "collisions [b1, b2] = Inr [fst (push_apart b1 b2), snd (push_apart b1 b2)]"
      by (simp add: collisions_pair collide_pair_eq bind_err_def split: prod.splits)
    with px show ?thesis by simp
  next
    case False
    with lt have "collisions [b1, b2] = Inr [fst (bounce b1 b2), snd (bounce b1 b2)]"
      by (simp add: collisions_pair collide_pair_eq bind_err_def split: prod.splits)
    with px vy show ?thesis by simp
  qed
  with collisions_total [of bs] n c show ?thesis by simp
qed

theorem coincident_centres_handled_witness:
  "ball_x stacked_2 = ball_x stacked_1 \<and> ball_y stacked_2 = ball_y stacked_1
   \<and> 0 < ball_radius stacked_1 + ball_radius stacked_2
   \<and> normal stacked_1 stacked_2 = (1, 0) \<and> contact_dist stacked_1 stacked_2 = 1
   \<and> (\<exists>c1 c2. collisions [stacked_1, stacked_2] = Inr [c1, c2]
         \<and> ball_x c1 = 181 / 2 \<and> ball_y c1 = 100 \<and> ball_x c2 = 219 / 2 \<and> ball_y c2 = 100)"
proof -
  have h: "ball_x stacked_2 = ball_x stacked_1" "ball_y stacked_2 = ball_y stacked_1"
    "0 < ball_radius stacked_1 + ball_radius stacked_2"
    by (simp_all add: stacked_1_def stacked_2_def)
  have v: "ball_x stacked_1 = 100" "ball_y stacked_1 = 100"
    "ball_radius stacked_1 = 10" "ball_radius stacked_2 = 10"
    by (simp_all add: stacked_1_def stacked_2_def)
  from coincident_centres_handled [OF h, of "[]"] h show ?thesis
    by (auto simp: v)
qed

section \<open>Properties of construction\<close>

lemma randint_range:
  assumes "a \<le> b"
  shows "\<exists>r. randint a b k = Inr r \<and> a \<le> r \<and> r \<le> b"
proof -
  have "0 < nat (b - a + 1)" using assms by simp
  then have "k mod nat (b - a + 1) < nat (b - a + 1)" by (rule mod_less_divisor)
  then have "int (k mod nat (b - a + 1)) < b - a + 1" by linarith
  with assms show ?thesis by (simp add: randint_def)
qed

lemma Ball_init_default:
  "\<exists>b. Ball_init PyNone PyNone rnd ID = (Inr b, ID + 1)
      \<and> ball_id b = ID
      \<and> randint R_MIN R_MAX (draw_radius rnd) = Inr (ball_radius b)
      \<and> R_MIN \<le> ball_radius b \<and> ball_radius b \<le> R_MAX
      \<and> ball_angle b = py_random (draw_angle rnd) * 2 * pi"
proof -
  obtain r where r: "randint R_MIN R_MAX (draw_radius rnd) = Inr r" "R_MIN \<le> r" "r \<le> R_MAX"
    using randint_range [of R_MIN R_MAX] by (auto simp: R_MIN_def R_MAX_def WIDTH_def HEIGHT_def)
  have c: "\<exists>c. randint 0 255 k = Inr c" for k
    using randint_range [of 0 255 k] by auto
  obtain c1 c2 c3 c4 where c:
    "randint 0 255 (fst (draw_color rnd)) = Inr c1"
    "randint 0 255 (fst (snd (draw_color rnd))) = Inr c2"
    "randint 0 255 (fst (snd (snd (draw_color rnd)))) = Inr c3"
    "randint 0 255 (snd (snd (snd (draw_color rnd)))) = Inr c4"
    using c by meson
  have "r \<le> WIDTH - r" "r \<le> HEIGHT - r"
    using r(2,3) by (simp_all add: R_MIN_def R_MAX_def WIDTH_def HEIGHT_def)
  then obtain x y where xy:
    "randint r (WIDTH - r) (draw_x rnd) = Inr x" "randint r (HEIGHT - r) (draw_y rnd) = Inr y"
    using randint_range by meson
  show ?thesis
    using r c xy by (simp add: Ball_init_def bind_err_def)
qed

lemma bind_err_simps:
  "bind_err (Inl e) f = Inl e" "bind_err (Inr a) f = f a"
  by (simp_all add: bind_err_def)

lemma color_draws_ok:
  "bind_err (randint 0 255 k) f = f (int (k mod 256))"
  by (simp add: randint_def bind_err_def)

lemma Ball_init_zero_draws:
  assumes "\<not> isinstance_int radius" "\<not> isinstance_int_float angle"
  shows "Ball_init radius angle zero_draws 0 =
     (Inr \<lparr>ball_id = 0, ball_radius = 2, ball_color = (0, 0, 0, 0), ball_v = 0, ball_angle = 0,
        ball_x = 2, ball_y = 2\<rparr>, 1)"
  using assms
  by (simp add: Ball_init_def zero_draws_def randint_def bind_err_def py_random_def
      R_MIN_def R_MAX_def WIDTH_def HEIGHT_def V_MAX_def FPS_def)

text \<open>
  Every ball the constructor returns has a radius of \<open>[R_MIN, R_MAX]\<close>, a speed of
  \<open>[0, V_MAX)\<close> and its centre inside the arena.
\<close>

lemma Ball_init_well_formed:
  assumes "fst (Ball_init radius angle rnd ID) = Inr b"
  shows "R_MIN \<le> ball_radius b \<and> ball_radius b \<le> R_MAX
       \<and> 0 \<le> ball_v b \<and> ball_v b < real_of_int V_MAX \<and> \<not> is_outside b"
proof -
  from assms obtain r x y where
    r: "(if isinstance_int radius
           then (if R_MIN \<le> int_of radius \<and> int_of radius \<le> R_MAX
                   then Inr (int_of radius) else Inl AssertionError)
         else randint R_MIN R_MAX (draw_radius rnd)) = Inr r"
    and x: "randint r (WIDTH - r) (draw_x rnd) = Inr x"
    and y: "randint r (HEIGHT - r) (draw_y rnd) = Inr y"
    and b: "ball_radius b = r" "ball_x b = real_of_int x" "ball_y b = real_of_int y"
      "ball_v b = py_random (draw_v rnd) * real_of_int V_MAX"
    by (auto simp: Ball_init_def color_draws_ok bind_err_def split: sum.splits)
  have rr: "R_MIN \<le> r \<and> r \<le> R_MAX"
  proof (cases "isinstance_int radius")
    case True
    with r show ?thesis by (auto split: if_splits)
  next
    case False
    have "R_MIN \<le> R_MAX" by (simp add: R_MIN_def R_MAX_def WIDTH_def HEIGHT_def)
    from randint_range [OF this, of "draw_radius rnd"] r False show ?thesis by auto
  qed
  then have le: "r \<le> WIDTH - r" "r \<le> HEIGHT - r"
    by (simp_all add: R_MIN_def R_MAX_def WIDTH_def HEIGHT_def)
  from randint_range [OF le(1), of "draw_x rnd"] x have xx: "r \<le> x" "x \<le> WIDTH - r" by auto
  from randint_range [OF le(2), of "draw_y rnd"] y have yy: "r \<le> y" "y \<le> HEIGHT - r" by auto
  have "0 \<le> x" "x \<le> WIDTH" "0 \<le> y" "y \<le> HEIGHT"
    using rr xx yy by (simp_all add: R_MIN_def)
  then have out: "\<not> is_outside b"
    by (simp add: is_outside_def b not_less)
  have v: "0 \<le> ball_v b" "ball_v b < real_of_int V_MAX"
    by (simp_all add: b py_random_def V_MAX_def FPS_def frac_lt_1)
  from rr out v show ?thesis by (simp add: b)
qed

text \<open>
  Claim C9, as the code has it. A radius passed as an \<^verbatim>\<open>int\<close> outside
  \<open>[R_MIN, R_MAX]\<close>, or a heading passed as an \<^verbatim>\<open>int\<close> or \<^verbatim>\<open>float\<close> outside
  \<open>[0, 2 pi]\<close>, makes the constructor fail with an assertion error.
\<close>

theorem invalid_numeric_arguments_rejected:
  assumes "isinstance_int radius \<and> \<not> (R_MIN \<le> int_of radius \<and> int_of radius \<le> R_MAX)
         \<or> isinstance_int_float angle \<and> \<not> (0 \<le> real_of angle \<and> real_of angle \<le> 2 * pi)"
  shows "Ball_init radius angle rnd ID = (Inl AssertionError, ID + 1)"
proof (cases "isinstance_int radius \<and> \<not> (R_MIN \<le> int_of radius \<and> int_of radius \<le> R_MAX)")
  case True
  then show ?thesis by (auto simp: Ball_init_def bind_err_def)
next
  case False
  with assms have a: "isinstance_int_float angle"
    "\<not> (0 \<le> real_of angle \<and> real_of angle \<le> 2 * pi)" by auto
  have "\<exists>r. (if isinstance_int radius
           then (if R_MIN \<le> int_of radius \<and> int_of radius \<le> R_MAX
                   then Inr (int_of radius) else Inl AssertionError)
         else randint R_MIN R_MAX (draw_radius rnd)) = Inr r"
  proof (cases "isinstance_int radius")
    case True
    with False show ?thesis by simp
  next
    case no: False
    have "R_MIN \<le> R_MAX" by (simp add: R_MIN_def R_MAX_def WIDTH_def HEIGHT_def)
    from randint_range [OF this, of "draw_radius rnd"] no show ?thesis by auto
  qed
  then obtain r where r: "(if isinstance_int radius
           then (if R_MIN \<le> int_of radius \<and> int_of radius \<le> R_MAX
                   then Inr (int_of radius) else Inl AssertionError)
         else randint R_MIN R_MAX (draw_radius rnd)) = Inr r" ..
  show ?thesis
    unfolding Ball_init_def r
    using a by (auto simp: color_draws_ok bind_err_simps)
qed

theorem invalid_numeric_arguments_rejected_witness:
  "isinstance_int (PyInt 1000) \<and> \<not> (R_MIN \<le> int_of (PyInt 1000) \<and> int_of (PyInt 1000) \<le> R_MAX)
   \<and> Ball_init (PyInt 1000) PyNone zero_draws 0 = (Inl AssertionError, 1)
   \<and> isinstance_int_float (PyFloat 9) \<and> \<not> (0 \<le> real_of (PyFloat 9) \<and> real_of (PyFloat 9) \<le> 2 * pi)
   \<and> Ball_init PyNone (PyFloat 9) zero_draws 0 = (Inl AssertionError, 1)"
proof -
  have h1: "isinstance_int (PyInt 1000) \<and> \<not> (R_MIN \<le> int_of (PyInt 1000) \<and> int_of (PyInt 1000) \<le> R_MAX)"
    by (simp add: R_MIN_def R_MAX_def WIDTH_def HEIGHT_def)
  have "2 * pi < 9" using pi_less_4 by linarith
  then have h2: "isinstance_int_float (PyFloat 9) \<and> \<not> (0 \<le> real_of (PyFloat 9) \<and> real_of (PyFloat 9) \<le> 2 * pi)"
    by simp
  from invalid_numeric_arguments_rejected [of "PyInt 1000" PyNone zero_draws 0]
    invalid_numeric_arguments_rejected [of PyNone "PyFloat 9" zero_draws 0] h1 h2
  show ?thesis by simp
qed

text \<open>
  Claim C9 as stated fails: the radius 1000.5, passed as a \<^verbatim>\<open>float\<close>, lies outside
  \<open>[R_MIN, R_MAX]\<close> and the constructor returns a ball.
\<close>

theorem float_radius_not_rejected:
  "\<not> (real_of_int R_MIN \<le> 2001 / 2 \<and> 2001 / 2 \<le> real_of_int R_MAX)
   \<and> Ball_init (PyFloat (2001 / 2)) PyNone zero_draws 0 =
       (Inr \<lparr>ball_id = 0, ball_radius = 2, ball_color = (0, 0, 0, 0), ball_v = 0, ball_angle = 0,
          ball_x = 2, ball_y = 2\<rparr>, 1)"
  by (simp add: Ball_init_zero_draws) (simp add: R_MAX_def WIDTH_def HEIGHT_def)

text \<open>
  Claim C10. A radius argument that is not an \<^verbatim>\<open>int\<close> is ignored: the constructor
  behaves as if none was passed, the radius is the random source's choice from
  \<open>[R_MIN, R_MAX]\<close>, and the argument is never validated. Likewise a heading argument
  that is neither \<^verbatim>\<open>int\<close> nor \<^verbatim>\<open>float\<close>. With both arguments of that kind the
  constructor succeeds.
\<close>

theorem unvalidated_arguments:
  "(\<not> isinstance_int radius \<longrightarrow>
      Ball_init radius angle rnd ID = Ball_init PyNone angle rnd ID
      \<and> (\<forall>b. fst (Ball_init radius angle rnd ID) = Inr b \<longrightarrow>
            randint R_MIN R_MAX (draw_radius rnd) = Inr (ball_radius b)
            \<and> R_MIN \<le> ball_radius b \<and> ball_radius b \<le> R_MAX))
   \<and> (\<not> isinstance_int_float angle \<longrightarrow>
      Ball_init radius angle rnd ID = Ball_init radius PyNone rnd ID
      \<and> (\<forall>b. fst (Ball_init radius angle rnd ID) = Inr b \<longrightarrow>
            ball_angle b = py_random (draw_angle rnd) * 2 * pi))
   \<and> (\<not> isinstance_int radius \<and> \<not> isinstance_int_float angle \<longrightarrow>
      (\<exists>b. Ball_init radius angle rnd ID = (Inr b, ID + 1)))"
proof (intro conjI impI allI)
  assume "\<not> isinstance_int radius"
  then show "Ball_init radius angle rnd ID = Ball_init PyNone angle rnd ID"
    by (simp add: Ball_init_def)
next
  fix b
  assume nr: "\<not> isinstance_int radius" and ok: "fst (Ball_init radius angle rnd ID) = Inr b"
  obtain r where r: "randint R_MIN R_MAX (draw_radius rnd) = Inr r" "R_MIN \<le> r" "r \<le> R_MAX"
    using randint_range [of R_MIN R_MAX] by (auto simp: R_MIN_def R_MAX_def WIDTH_def HEIGHT_def)
  from ok nr r(1) have "ball_radius b = r"
    by (auto simp: Ball_init_def bind_err_simps color_draws_ok bind_err_def split: sum.splits if_splits)
  with r show "randint R_MIN R_MAX (draw_radius rnd) = Inr (ball_radius b)"
    "R_MIN \<le> ball_radius b" "ball_radius b \<le> R_MAX" by simp_all
next
  assume "\<not> isinstance_int_float angle"
  then show "Ball_init radius angle rnd ID = Ball_init radius PyNone rnd ID"
    by (simp add: Ball_init_def)
next
  fix b
  assume na: "\<not> isinstance_int_float angle" and ok: "fst (Ball_init radius angle rnd ID) = Inr b"
  then show "ball_angle b = py_random (draw_angle rnd) * 2 * pi"
    by (auto simp: Ball_init_def bind_err_simps color_draws_ok bind_err_def split: sum.splits if_splits)
next
  assume "\<not> isinstance_int radius \<and> \<not> isinstance_int_float angle"
  then have "Ball_init radius angle rnd ID = Ball_init PyNone PyNone rnd ID"
    by (simp add: Ball_init_def)
  with Ball_init_default [of rnd ID] show "\<exists>b. Ball_init radius angle rnd ID = (Inr b, ID + 1)"
    by auto
qed

theorem unvalidated_arguments_witness:
  "\<not> isinstance_int (PyFloat (2001 / 2)) \<and> \<not> isinstance_int_float (PyObj ''str'')
   \<and> Ball_init (PyFloat (2001 / 2)) (PyObj ''str'') zero_draws 0
       = Ball_init PyNone (PyObj ''str'') zero_draws 0
   \<and> Ball_init (PyFloat (2001 / 2)) (PyObj ''str'') zero_draws 0
       = Ball_init (PyFloat (2001 / 2)) PyNone zero_draws 0
   \<and> Ball_init (PyFloat (2001 / 2)) (PyObj ''str'') zero_draws 0 =
       (Inr \<lparr>ball_id = 0, ball_radius = 2, ball_color = (0, 0, 0, 0), ball_v = 0, ball_angle = 0,
          ball_x = 2, ball_y = 2\<rparr>, 1)"
  using unvalidated_arguments [of "PyFloat (2001 / 2)" "PyObj ''str''" zero_draws 0]
  by (simp add: Ball_init_zero_draws)

section \<open>Properties of placement\<close>

lemma is_collide_sym: "is_collide b1 b2 = is_collide b2 b1"
  by (simp add: is_collide_def distance_def power2_commute add.commute)

lemma clear_of_snoc:
  assumes "clear_of balls" and "\<not> list_ex (is_collide new) balls"
  shows "clear_of (balls @ [new])"
proof -
  have new: "\<not> is_collide new (balls ! k)" "\<not> is_collide (balls ! k) new" if "k < length balls" for k
    using assms(2) that by (auto simp: list_ex_iff is_collide_sym)
  show ?thesis
    unfolding clear_of_def
  proof (intro allI impI)
    fix i j
    assume "i < length (balls @ [new])" "j < length (balls @ [new])" "i \<noteq> j"
    then consider "i < length balls" "j < length balls"
      | "i < length balls" "j = length balls"
      | "i = length balls" "j < length balls"
      by fastforce
    then show "\<not> is_collide ((balls @ [new]) ! i) ((balls @ [new]) ! j)"
    proof cases
      case 1
      with assms(1) \<open>i \<noteq> j\<close> show ?thesis by (simp add: clear_of_def nth_append)
    next
      case 2
      with new show ?thesis by (simp add: nth_append)
    next
      case 3
      with new show ?thesis by (simp add: nth_append)
    qed
  qed
qed

lemma place_ball_appends:
  assumes "place_ball balls rnds ID = Some (Inr balls', rnds', ID')"
  shows "\<exists>new. balls' = balls @ [new] \<and> \<not> list_ex (is_collide new) balls"
  using assms
proof (induction rnds arbitrary: ID)
  case Nil
  then show ?case by simp
next
  case (Cons rnd rnds)
  obtain b where b: "Ball_init PyNone PyNone rnd ID = (Inr b, ID + 1)"
    using Ball_init_default [of rnd ID] by blast
  show ?case
  proof (cases "list_ex (is_collide b) balls")
    case True
    with Cons.prems b have "place_ball balls rnds (ID + 1) = Some (Inr balls', rnds', ID')"
      by simp
    then show ?thesis by (rule Cons.IH)
  next
    case False
    with Cons.prems b have "balls' = balls @ [b]" by simp
    with False show ?thesis by blast
  qed
qed

lemma placement_invariant:
  assumes "placement n balls rnds ID = Some (Inr balls', rnds', ID')" and "clear_of balls"
  shows "length balls' = length balls + n \<and> clear_of balls'"
  using assms
proof (induction n arbitrary: balls rnds ID)
  case 0
  then show ?case by simp
next
  case (Suc n)
  from Suc.prems(1) obtain balls1 rnds1 ID1 where
    step: "place_ball balls rnds ID = Some (Inr balls1, rnds1, ID1)"
    and rest: "placement n balls1 rnds1 ID1 = Some (Inr balls', rnds', ID')"
    by (auto split: option.splits sum.splits prod.splits)
  from place_ball_appends [OF step] obtain new where
    new: "balls1 = balls @ [new]" "\<not> list_ex (is_collide new) balls" by blast
  with Suc.prems(2) have "clear_of balls1" by (simp add: clear_of_snoc)
  from Suc.IH [OF rest this] new(1) show ?case by simp
qed

lemma Ball_init_zero:
  "Ball_init PyNone PyNone zero_draws ID = (Inr (placed_first\<lparr>ball_id := ID\<rparr>), ID + 1)"
  by (simp add: Ball_init_def zero_draws_def randint_def bind_err_def py_random_def
      R_MIN_def R_MAX_def WIDTH_def HEIGHT_def V_MAX_def FPS_def placed_first_def)

lemma Ball_init_far:
  "Ball_init PyNone PyNone far_draws ID = (Inr (placed_second\<lparr>ball_id := ID\<rparr>), ID + 1)"
  by (simp add: Ball_init_def far_draws_def randint_def bind_err_def py_random_def
      R_MIN_def R_MAX_def WIDTH_def HEIGHT_def V_MAX_def FPS_def placed_second_def)

lemma same_spot_collides: "is_collide (placed_first\<lparr>ball_id := k\<rparr>) placed_first"
  by (simp add: is_collide_def distance_def placed_first_def)

lemma far_spot_clear: "\<not> is_collide (placed_second\<lparr>ball_id := k\<rparr>) placed_first"
proof -
  have "sqrt (100 * 100) = \<bar>100::real\<bar>" by (rule real_sqrt_abs2)
  then show ?thesis
    by (simp add: is_collide_def distance_def placed_first_def placed_second_def power2_eq_square)
qed

lemma placement_example:
  "placement 2 [] [zero_draws, zero_draws, far_draws] 0
     = Some (Inr [placed_first, placed_second], [], 3)"
proof -
  have a: "placed_first\<lparr>ball_id := 0\<rparr> = placed_first"
    and b: "placed_second\<lparr>ball_id := 2\<rparr> = placed_second"
    by (simp_all add: placed_first_def placed_second_def)
  have 1: "place_ball [] [zero_draws, zero_draws, far_draws] 0
      = Some (Inr [placed_first], [zero_draws, far_draws], Suc 0)"
    by (simp add: Ball_init_zero a)
  have z: "Ball_init PyNone PyNone zero_draws (Suc 0)
      = (Inr (placed_first\<lparr>ball_id := Suc 0\<rparr>), Suc (Suc 0))"
    using Ball_init_zero [of "Suc 0"] by simp
  have "placed_second\<lparr>ball_id := Suc (Suc 0)\<rparr> = placed_second"
    by (simp add: placed_second_def)
  then have f: "Ball_init PyNone PyNone far_draws (Suc (Suc 0)) = (Inr placed_second, 3)"
    using Ball_init_far [of "Suc (Suc 0)"] by simp
  have 2: "place_ball [placed_first] [zero_draws, far_draws] (Suc 0)
      = Some (Inr [placed_first, placed_second], [], 3)"
    using far_spot_clear [of 2]
    by (simp add: z f same_spot_collides b)
  show ?thesis
    by (simp add: numeral_2_eq_2 1 2 del: place_ball.simps)
qed

text \<open>
  Claim C5. When placement of \<open>n\<close> balls into the empty arena returns, it returns \<open>n\<close>
  balls, and every two distinct ones are at a centre distance of at least the sum of their
  radii; indeed no two of them satisfy \<^verbatim>\<open>is_collide\<close>.
\<close>

theorem placement_no_overlap:
  assumes "placement n [] rnds ID = Some (Inr balls, rnds', ID')"
  shows "length balls = n \<and> no_overlap balls
       \<and> (\<forall>i < length balls. \<forall>j < length balls. i \<noteq> j \<longrightarrow> \<not> is_collide (balls ! i) (balls ! j))"
proof -
  have "clear_of []" by (simp add: clear_of_def)
  from placement_invariant [OF assms this] have n: "length balls = n" and c: "clear_of balls"
    by simp_all
  from c have "no_overlap balls"
    unfolding clear_of_def no_overlap_def is_collide_def by (simp add: not_le less_imp_le)
  with n c show ?thesis by (simp add: clear_of_def)
qed

theorem placement_no_overlap_witness:
  "placement 2 [] [zero_draws, zero_draws, far_draws] 0
     = Some (Inr [placed_first, placed_second], [], 3)
   \<and> length [placed_first, placed_second] = 2
   \<and> no_overlap [placed_first, placed_second]
   \<and> \<not> is_collide placed_first placed_second"
proof -
  note r = placement_no_overlap [OF placement_example]
  from r have "\<forall>i < length [placed_first, placed_second].
      \<forall>j < length [placed_first, placed_second]. i \<noteq> j \<longrightarrow>
        \<not> is_collide ([placed_first, placed_second] ! i) ([placed_first, placed_second] ! j)"
    by blast
  then have "(0::nat) \<noteq> 1 \<longrightarrow>
      \<not> is_collide ([placed_first, placed_second] ! 0) ([placed_first, placed_second] ! 1)"
    by (metis One_nat_def Suc_1 length_Cons lessI list.size(3) zero_less_Suc)
  then have "\<not> is_collide placed_first placed_second" by simp
  with r placement_example show ?thesis by simp
qed

end
